theory Spec2Isabelle
  imports Complex_Main "HOL-Library.Multiset"
begin

section \<open>Data model\<close>

text \<open>
  The interface \<^verbatim>\<open>Repository\<close> of \<^verbatim>\<open>services/repositories.ts\<close>. The two date
  fields hold ISO-8601 strings in the source and are only ever read through
  \<^verbatim>\<open>new Date(s).getTime()\<close>; the model stores that instant (milliseconds since the
  epoch) directly. \<^verbatim>\<open>usageScore\<close> is a JavaScript number; the model computes with
  exact reals. The sign of a difference of two finite doubles is the sign of the
  difference of the reals they denote, so comparisons of scores agree with the source.
\<close>

record repository =
  id_repo :: string
  name :: string
  owner :: string
  fullName :: string
  description :: "string option"
  url :: string
  stars :: nat
  language :: "string option"
  updatedAt :: int
  pushedAt :: int
  isPrivate :: bool
  usageScore :: real

text \<open>
  \<^verbatim>\<open>interface RepositoryAccessTimes { [repoId: string]: number }\<close>: a dictionary
  from repository id to the timestamp \<^verbatim>\<open>Date.now()\<close> returned at the last access.
  Repository ids are decimal renderings of numbers (\<^verbatim>\<open>repo.id.toString()\<close>), so no
  key collides with a property inherited from \<^verbatim>\<open>Object.prototype\<close>.
\<close>

type_synonym RepositoryAccessTimes = "string \<rightharpoonup> int"

section \<open>Array.prototype.sort with a comparator\<close>

text \<open>
  ECMAScript requires \<^verbatim>\<open>Array.prototype.sort\<close> to be stable: \<^verbatim>\<open>a\<close> is placed before
  \<^verbatim>\<open>b\<close> when the comparator returns a negative number, after it when the result is
  positive, and the two keep their order when it is zero. For a consistent comparator
  this determines the result, whatever algorithm the engine runs; the model is the
  stable insertion sort. Elements are inserted from the right, so the element that
  came first in the input is placed in front of the elements it ties with.
\<close>

fun insert_by :: "('a \<Rightarrow> 'a \<Rightarrow> real) \<Rightarrow> 'a \<Rightarrow> 'a list \<Rightarrow> 'a list" where
  "insert_by cmp x [] = [x]"
| "insert_by cmp x (y # ys) =
     (if cmp x y \<le> 0 then x # y # ys else y # insert_by cmp x ys)"

definition array_sort :: "('a \<Rightarrow> 'a \<Rightarrow> real) \<Rightarrow> 'a list \<Rightarrow> 'a list" where
  "array_sort cmp xs = foldr (insert_by cmp) xs []"

text \<open>
  A comparator is consistent when "not after" (\<open>cmp a b \<le> 0\<close>) is a total preorder.
\<close>

definition consistent :: "('a \<Rightarrow> 'a \<Rightarrow> real) \<Rightarrow> bool" where
  "consistent cmp \<longleftrightarrow>
     (\<forall>a b. 0 < cmp a b \<longrightarrow> cmp b a \<le> 0) \<and>
     (\<forall>a b c. cmp a b \<le> 0 \<and> cmp b c \<le> 0 \<longrightarrow> cmp a c \<le> 0)"

section \<open>Ranking by access time (github-repositories.tsx)\<close>

text \<open>
  \<^verbatim>\<open>accessTimes[a.id] || 0\<close>: a missing entry reads \<^verbatim>\<open>undefined\<close>, which is falsy,
  and so is a stored 0; both give 0.
\<close>

definition accessTimeOr0 :: "RepositoryAccessTimes \<Rightarrow> string \<Rightarrow> int" where
  "accessTimeOr0 accessTimes k =
     (case accessTimes k of None \<Rightarrow> 0 | Some t \<Rightarrow> (if t = 0 then 0 else t))"

text \<open>The comparator passed to \<^verbatim>\<open>sort\<close> in \<^verbatim>\<open>sortRepositoriesByAccess\<close>.\<close>

definition compareByAccess :: "RepositoryAccessTimes \<Rightarrow> repository \<Rightarrow> repository \<Rightarrow> real" where
  "compareByAccess accessTimes a b =
     (let aTime = accessTimeOr0 accessTimes (id_repo a);
          bTime = accessTimeOr0 accessTimes (id_repo b)
      in if aTime \<noteq> bTime then real_of_int (bTime - aTime)
         else usageScore b - usageScore a)"

text \<open>
  \<^verbatim>\<open>[...repos].sort(...)\<close>: the input array is copied, the copy is sorted and returned.
\<close>

definition sortRepositoriesByAccess ::
    "repository list \<Rightarrow> RepositoryAccessTimes \<Rightarrow> repository list" where
  "sortRepositoriesByAccess repos accessTimes =
     array_sort (compareByAccess accessTimes) repos"

section \<open>Numbers as text: Number.prototype.toString and parseInt\<close>

text \<open>
  The cache timestamp is written with \<^verbatim>\<open>Date.now().toString()\<close> and read back with
  \<^verbatim>\<open>parseInt(timestamp, 10)\<close>. \<^verbatim>\<open>toString\<close> of an integer is its decimal rendering,
  with a minus sign for a negative one.
\<close>

definition digit_char :: "nat \<Rightarrow> char" where
  "digit_char d = ''0123456789'' ! d"

function nat_digits :: "nat \<Rightarrow> string" where
  "nat_digits n =
     (if n < 10 then [digit_char n] else nat_digits (n div 10) @ [digit_char (n mod 10)])"
  by pat_completeness auto
termination
  by (relation "measure (\<lambda>n. n)") auto

declare nat_digits.simps [simp del]

definition toString :: "int \<Rightarrow> string" where
  "toString n = (if n < 0 then CHR ''-'' # nat_digits (nat (- n)) else nat_digits (nat n))"

text \<open>
  \<^verbatim>\<open>parseInt(s, 10)\<close>: leading white space is skipped, one sign is read, then the
  longest run of decimal digits; whatever follows is ignored. With no digit the result
  is \<^verbatim>\<open>NaN\<close>, here \<open>None\<close>.
\<close>

definition is_space :: "char \<Rightarrow> bool" where
  "is_space c \<longleftrightarrow> of_char c \<in> {9, 10, 11, 12, 13, 32 :: nat}"

definition is_digit :: "char \<Rightarrow> bool" where
  "is_digit c \<longleftrightarrow> 48 \<le> (of_char c :: nat) \<and> (of_char c :: nat) \<le> 57"

definition digit_val :: "char \<Rightarrow> nat" where
  "digit_val c = of_char c - 48"

fun digits_value :: "nat \<Rightarrow> string \<Rightarrow> nat" where
  "digits_value acc [] = acc"
| "digits_value acc (c # cs) = digits_value (acc * 10 + digit_val c) cs"

definition parseInt :: "string \<Rightarrow> int option" where
  "parseInt s =
     (let t = dropWhile is_space s;
          neg = (t \<noteq> [] \<and> hd t = CHR ''-'');
          u = (if t \<noteq> [] \<and> (hd t = CHR ''+'' \<or> hd t = CHR ''-'') then tl t else t);
          ds = takeWhile is_digit u
      in if ds = [] then None
         else Some ((if neg then - 1 else 1) * int (digits_value 0 ds)))"

section \<open>LocalStorage\<close>

text \<open>
  \<^verbatim>\<open>LocalStorage\<close> maps keys to strings. The extension uses three keys, each written
  by one function only: the access times and the cached repositories go through
  \<^verbatim>\<open>JSON.stringify\<close> and come back through \<^verbatim>\<open>JSON.parse\<close>, which returns the value
  that was serialized (objects of finite numbers, arrays of records of strings, booleans,
  \<^verbatim>\<open>null\<close> and finite numbers). The model keeps, for these two keys, the value whose
  JSON text is stored, and for the timestamp key the stored string itself.
  \<open>None\<close> is a key that was never set.
\<close>

definition STORAGE_KEY :: string where
  "STORAGE_KEY = ''repository-access-times''"

definition CACHE_KEY :: string where
  "CACHE_KEY = ''repositories-cache''"

definition CACHE_TIMESTAMP_KEY :: string where
  "CACHE_TIMESTAMP_KEY = ''repositories-cache-timestamp''"

definition CACHE_DURATION :: int where
  "CACHE_DURATION = 5 * 60 * 1000"

record local_storage =
  access_times_item :: "RepositoryAccessTimes option"
  cache_item :: "repository list option"
  cache_timestamp_item :: "string option"

text \<open>\<^verbatim>\<open>stored ? JSON.parse(stored) : {}\<close>\<close>

definition getAccessTimes :: "local_storage \<Rightarrow> RepositoryAccessTimes" where
  "getAccessTimes st = (case access_times_item st of None \<Rightarrow> Map.empty | Some m \<Rightarrow> m)"

text \<open>
  \<^verbatim>\<open>updateAccessTime(repoId)\<close>; the second argument is what \<^verbatim>\<open>Date.now()\<close> returns.
\<close>

definition updateAccessTime :: "string \<Rightarrow> int \<Rightarrow> local_storage \<Rightarrow> local_storage" where
  "updateAccessTime repoId now st =
     (let accessTimes = getAccessTimes st;
          accessTimes' = accessTimes(repoId \<mapsto> now)
      in st\<lparr>access_times_item := Some accessTimes'\<rparr>)"

definition getCachedRepositories :: "local_storage \<Rightarrow> repository list option" where
  "getCachedRepositories st = (case cache_item st of None \<Rightarrow> None | Some repos \<Rightarrow> Some repos)"

definition setCachedRepositories ::
    "repository list \<Rightarrow> int \<Rightarrow> local_storage \<Rightarrow> local_storage" where
  "setCachedRepositories repos now st =
     (let st1 = st\<lparr>cache_item := Some repos\<rparr>
      in st1\<lparr>cache_timestamp_item := Some (toString now)\<rparr>)"

text \<open>
  \<^verbatim>\<open>isCacheValid()\<close>, with the reading of \<^verbatim>\<open>Date.now()\<close> as its argument. An empty
  string is falsy; a timestamp that does not parse gives the age \<^verbatim>\<open>NaN\<close>, and
  \<^verbatim>\<open>NaN < CACHE_DURATION\<close> is false.
\<close>

definition isCacheValid :: "local_storage \<Rightarrow> int \<Rightarrow> bool" where
  "isCacheValid st now =
     (case cache_timestamp_item st of
        None \<Rightarrow> False
      | Some timestamp \<Rightarrow>
          if timestamp = [] then False
          else (case parseInt timestamp of
                  None \<Rightarrow> False
                | Some t \<Rightarrow> (let age = now - t in age < CACHE_DURATION)))"

section \<open>Usage score and fetching (services/repositories.ts)\<close>

text \<open>
  \<^verbatim>\<open>calculateUsageScore\<close>. The first argument is the reading of
  \<^verbatim>\<open>new Date().getTime()\<close>; \<open>updated_at\<close> and \<open>pushed_at\<close> are the instants
  \<^verbatim>\<open>new Date(repo.updated_at).getTime()\<close> and \<^verbatim>\<open>new Date(repo.pushed_at).getTime()\<close>.
  The arithmetic is over the reals.
\<close>

definition calculateUsageScore :: "int \<Rightarrow> nat \<Rightarrow> int \<Rightarrow> int \<Rightarrow> real" where
  "calculateUsageScore now stargazers_count updated_at pushed_at =
     (let stars = real stargazers_count;
          updated = updated_at;
          pushed = pushed_at;
          daysSinceUpdate = real_of_int (now - updated) / (1000 * 60 * 60 * 24);
          daysSincePush = real_of_int (now - pushed) / (1000 * 60 * 60 * 24);
          recencyScore = exp (- daysSinceUpdate / 30) * 100 + exp (- daysSincePush / 30) * 100;
          score = stars * 2 + recencyScore
      in score)"

text \<open>Values thrown in the source: an \<^verbatim>\<open>Error\<close> with its message, or anything else.\<close>

datatype js_error = Error string | NonError

text \<open>\<^verbatim>\<open>String.prototype.includes\<close>\<close>

fun str_includes :: "string \<Rightarrow> string \<Rightarrow> bool" where
  "str_includes [] pat = (pat = [])"
| "str_includes (c # cs) pat = (take (length pat) (c # cs) = pat \<or> str_includes cs pat)"

definition handleGitHubError :: "js_error \<Rightarrow> js_error" where
  "handleGitHubError err =
     (case err of
        Error message \<Rightarrow>
          if str_includes message ''Bad credentials''
          then Error ''Invalid GitHub token. Please check your credentials.''
          else if str_includes message ''rate limit''
          then Error ''GitHub API rate limit exceeded. Please try again later.''
          else if str_includes message ''ENOTFOUND'' \<or> str_includes message ''network''
          then Error ''Unable to connect to GitHub. Please check your internet connection.''
          else if str_includes message ''Resource protected by organization SAML enforcement''
          then Error ''GitHub token is missing authorization for organizations that use SSO. Please re-authenticate to fix this.''
          else err
      | NonError \<Rightarrow> Error ''Unknown GitHub API error occurred'')"

text \<open>
  One element of the response of \<^verbatim>\<open>octokit.rest.repos.listForAuthenticatedUser\<close>
  (or \<^verbatim>\<open>listForUser\<close>), with the fields the source reads. \<open>None\<close> is a field that is
  \<^verbatim>\<open>null\<close> or missing.
\<close>

record api_repo =
  api_id :: nat
  api_name :: string
  api_owner_login :: "string option"
  api_full_name :: string
  api_description :: "string option"
  api_html_url :: string
  api_stargazers_count :: "nat option"
  api_language :: "string option"
  api_updated_at :: int
  api_pushed_at :: "int option"
  api_private :: bool

text \<open>
  The object literal built in \<^verbatim>\<open>repos.map(...)\<close>. \<^verbatim>\<open>x || d\<close> yields \<^verbatim>\<open>d\<close> when
  \<^verbatim>\<open>x\<close> is missing, \<^verbatim>\<open>0\<close> or the empty string.
\<close>

definition toRepository :: "int \<Rightarrow> api_repo \<Rightarrow> repository" where
  "toRepository now repo =
     \<lparr>id_repo = toString (int (api_id repo)),
      name = api_name repo,
      owner = (case api_owner_login repo of None \<Rightarrow> '''' | Some l \<Rightarrow> (if l = [] then '''' else l)),
      fullName = api_full_name repo,
      description = api_description repo,
      url = api_html_url repo,
      stars = (case api_stargazers_count repo of None \<Rightarrow> 0 | Some n \<Rightarrow> (if n = 0 then 0 else n)),
      language = api_language repo,
      updatedAt = api_updated_at repo,
      pushedAt = (case api_pushed_at repo of None \<Rightarrow> api_updated_at repo | Some p \<Rightarrow> p),
      isPrivate = api_private repo,
      usageScore = calculateUsageScore now
        (case api_stargazers_count repo of None \<Rightarrow> 0 | Some n \<Rightarrow> (if n = 0 then 0 else n))
        (api_updated_at repo)
        (case api_pushed_at repo of None \<Rightarrow> api_updated_at repo | Some p \<Rightarrow> p)\<rparr>"

text \<open>
  \<^verbatim>\<open>fetchRepositories\<close> and \<^verbatim>\<open>fetchRepositoriesByOwner\<close>. The response of the API
  call is an argument: \<open>Inl\<close> is the value the call throws. \<open>clock i\<close> is the reading
  of \<^verbatim>\<open>new Date().getTime()\<close> while the element at index \<open>i\<close> is transformed (the
  score of each repository reads the clock again).
\<close>

definition fetchRepositories ::
    "(nat \<Rightarrow> int) \<Rightarrow> js_error + api_repo list \<Rightarrow> js_error + repository list" where
  "fetchRepositories clock response =
     (case response of
        Inl err \<Rightarrow> Inl (handleGitHubError err)
      | Inr repos \<Rightarrow>
          (let repositories = map (\<lambda>(i, repo). toRepository (clock i) repo) (enumerate 0 repos)
           in Inr (array_sort (\<lambda>a b. usageScore b - usageScore a) repositories)))"

definition fetchRepositoriesByOwner ::
    "(nat \<Rightarrow> int) \<Rightarrow> js_error + api_repo list \<Rightarrow> js_error + repository list" where
  "fetchRepositoriesByOwner clock response =
     (case response of
        Inl err \<Rightarrow> Inl (handleGitHubError err)
      | Inr repos \<Rightarrow>
          (let repositories = map (\<lambda>(i, repo). toRepository (clock i) repo) (enumerate 0 repos)
           in Inr (array_sort (\<lambda>a b. usageScore b - usageScore a) repositories)))"

section \<open>The command's state and the load flow (github-repositories.tsx)\<close>

text \<open>
  The source holds the command in two versions, without and with the cache of fetched
  repositories. \<^verbatim>\<open>getAccessTimes\<close>, \<^verbatim>\<open>updateAccessTime\<close> and
  \<^verbatim>\<open>sortRepositoriesByAccess\<close> are the same in both; \<^verbatim>\<open>loadRepositories\<close> is
  modelled from the version with the cache.
\<close>

text \<open>The \<^verbatim>\<open>useState\<close> variables of \<^verbatim>\<open>MyRepositoriesCommand\<close>, with their initial values.
  The source binds only the setter of the last one (\<^verbatim>\<open>const [, setAccessTimes]\<close>).\<close>

record ui_state =
  repositories :: "repository list"
  sortedRepositories :: "repository list"
  isLoading :: bool
  error :: "string option"
  currentUser :: string
  accessTimesState :: RepositoryAccessTimes

definition initial_ui :: ui_state where
  "initial_ui =
     \<lparr>repositories = [], sortedRepositories = [], isLoading = True, error = None,
      currentUser = [], accessTimesState = Map.empty\<rparr>"

text \<open>
  What the asynchronous flow does, in order: calls of the state setters, requests sent
  to GitHub (the event stands where the request is issued; the flow continues with the
  next event once it has resolved), writes to \<^verbatim>\<open>LocalStorage\<close> and the toast.
\<close>

datatype event =
    SetRepositories "repository list"
  | SetAccessTimes RepositoryAccessTimes
  | SetSortedRepositories "repository list"
  | SetCurrentUser string
  | SetIsLoading bool
  | SetError "string option"
  | GetAuthenticated
  | FetchRepositories
  | SetItem string
  | ShowToast string

fun apply_event :: "ui_state \<Rightarrow> event \<Rightarrow> ui_state" where
  "apply_event ui (SetRepositories rs) = ui\<lparr>repositories := rs\<rparr>"
| "apply_event ui (SetAccessTimes m) = ui\<lparr>accessTimesState := m\<rparr>"
| "apply_event ui (SetSortedRepositories rs) = ui\<lparr>sortedRepositories := rs\<rparr>"
| "apply_event ui (SetCurrentUser u) = ui\<lparr>currentUser := u\<rparr>"
| "apply_event ui (SetIsLoading b) = ui\<lparr>isLoading := b\<rparr>"
| "apply_event ui (SetError e) = ui\<lparr>error := e\<rparr>"
| "apply_event ui GetAuthenticated = ui"
| "apply_event ui FetchRepositories = ui"
| "apply_event ui (SetItem k) = ui"
| "apply_event ui (ShowToast m) = ui"

definition ui_after :: "event list \<Rightarrow> ui_state" where
  "ui_after evs = foldl apply_event initial_ui evs"

fun is_request :: "event \<Rightarrow> bool" where
  "is_request GetAuthenticated = True"
| "is_request FetchRepositories = True"
| "is_request _ = False"

text \<open>
  What the component renders: the error view when \<^verbatim>\<open>error\<close> is truthy, the
  "No repositories found" view when the list is empty and nothing is loading, the list
  of \<^verbatim>\<open>sortedRepositories\<close> otherwise.
\<close>

datatype view = ErrorView string | NoRepositoriesView | ListView "repository list"

definition render :: "ui_state \<Rightarrow> view" where
  "render ui =
     (case error ui of
        Some msg \<Rightarrow>
          if msg \<noteq> [] then ErrorView msg
          else if length (sortedRepositories ui) = 0 \<and> \<not> isLoading ui then NoRepositoriesView
          else ListView (sortedRepositories ui)
      | None \<Rightarrow>
          if length (sortedRepositories ui) = 0 \<and> \<not> isLoading ui then NoRepositoriesView
          else ListView (sortedRepositories ui))"

text \<open>
  The world outside one run of \<^verbatim>\<open>loadRepositories\<close>: the readings of the clock in
  the two calls of \<^verbatim>\<open>isCacheValid\<close>, in \<^verbatim>\<open>setCachedRepositories\<close> and in the score
  calculation, and the outcomes of the three requests.
\<close>

record env =
  now_valid1 :: int
  now_valid2 :: int
  now_write :: int
  now_score :: "nat \<Rightarrow> int"
  user_cached :: "js_error + string"
  api_response :: "js_error + api_repo list"
  user_fresh :: "js_error + string"

text \<open>
  The body of the \<^verbatim>\<open>try\<close> block of \<^verbatim>\<open>loadRepositories\<close> (the version that caches):
  the events up to its end or up to the exception that leaves it, the storage, and the
  exception if there is one. The request for the user inside the cache branch has its
  own \<^verbatim>\<open>try\<close> with an empty \<^verbatim>\<open>catch\<close>.
\<close>

definition load_try ::
    "env \<Rightarrow> local_storage \<Rightarrow> event list \<times> local_storage \<times> js_error option" where
  "load_try e st =
     (let times = getAccessTimes st;
          cachedRepos = getCachedRepositories st;
          shown =
            (case cachedRepos of
               None \<Rightarrow> []
             | Some c \<Rightarrow>
                 if length c > 0 then
                   [SetRepositories c, SetAccessTimes times,
                    SetSortedRepositories (sortRepositoriesByAccess c times)]
                   @ (if length c > 0 \<and> owner (c ! 0) \<noteq> [] then
                        GetAuthenticated #
                          (case user_cached e of
                             Inr login \<Rightarrow> [SetCurrentUser login]
                           | Inl _ \<Rightarrow> [])
                      else [])
                   @ (if isCacheValid st (now_valid1 e) then [SetIsLoading False] else [])
                 else []);
          cacheValid = isCacheValid st (now_valid2 e)
      in if \<not> cacheValid \<or> cachedRepos = None then
           (case fetchRepositories (now_score e) (api_response e) of
              Inl err \<Rightarrow> (shown @ [SetError None, FetchRepositories], st, Some err)
            | Inr repos \<Rightarrow>
                (let st' = setCachedRepositories repos (now_write e) st;
                     fresh = shown @ [SetError None, FetchRepositories,
                       SetItem CACHE_KEY, SetItem CACHE_TIMESTAMP_KEY,
                       SetRepositories repos, SetAccessTimes times,
                       SetSortedRepositories (sortRepositoriesByAccess repos times)]
                 in if length repos > 0 then
                      (case user_fresh e of
                         Inr login \<Rightarrow> (fresh @ [GetAuthenticated, SetCurrentUser login], st', None)
                       | Inl err \<Rightarrow> (fresh @ [GetAuthenticated], st', Some err))
                    else (fresh, st', None)))
         else (shown, st, None))"

text \<open>\<^verbatim>\<open>loadRepositories\<close>: the \<^verbatim>\<open>try\<close> block, then \<^verbatim>\<open>catch\<close> and \<^verbatim>\<open>finally\<close>.\<close>

definition loadRepositories :: "env \<Rightarrow> local_storage \<Rightarrow> event list \<times> local_storage" where
  "loadRepositories e st =
     (case load_try e st of
        (evs, st', None) \<Rightarrow> (evs @ [SetIsLoading False], st')
      | (evs, st', Some err) \<Rightarrow>
          (let errorMessage =
                 (case err of Error message \<Rightarrow> message | NonError \<Rightarrow> ''Failed to load repositories'')
           in (evs @ [SetError (Some errorMessage), ShowToast errorMessage, SetIsLoading False],
               st')))"

text \<open>
  \<^verbatim>\<open>handleRepositoryClick\<close>: the access is recorded, the ledger is read again and the
  repositories held in the state are ranked anew.
\<close>

definition handleRepositoryClick ::
    "string \<Rightarrow> int \<Rightarrow> local_storage \<Rightarrow> ui_state \<Rightarrow> local_storage \<times> ui_state" where
  "handleRepositoryClick repoId now st ui =
     (let st' = updateAccessTime repoId now st;
          updatedTimes = getAccessTimes st'
      in (st', ui\<lparr>accessTimesState := updatedTimes,
                   sortedRepositories := sortRepositoriesByAccess (repositories ui) updatedTimes\<rparr>))"

section \<open>Example data\<close>

definition example_repo :: "string \<Rightarrow> real \<Rightarrow> repository" where
  "example_repo i s =
     \<lparr>id_repo = i, name = ''n'', owner = ''o'', fullName = ''o/n'', description = None,
      url = ''u'', stars = 0, language = None, updatedAt = 0, pushedAt = 0,
      isPrivate = False, usageScore = s\<rparr>"

definition example_storage :: local_storage where
  "example_storage =
     \<lparr>access_times_item = Some [''1'' \<mapsto> 100, ''2'' \<mapsto> 200], cache_item = None,
      cache_timestamp_item = None\<rparr>"

definition example_api_repo :: "nat \<Rightarrow> nat \<Rightarrow> api_repo" where
  "example_api_repo i s =
     \<lparr>api_id = i, api_name = ''n'', api_owner_login = Some ''o'', api_full_name = ''o/n'',
      api_description = None, api_html_url = ''u'', api_stargazers_count = Some s,
      api_language = None, api_updated_at = 0, api_pushed_at = None, api_private = False\<rparr>"

definition example_cached_storage :: local_storage where
  "example_cached_storage =
     \<lparr>access_times_item = Some [''2'' \<mapsto> 100],
      cache_item = Some [example_repo ''1'' 1000, example_repo ''2'' 0],
      cache_timestamp_item = Some ''1000''\<rparr>"

definition example_env :: "js_error + api_repo list \<Rightarrow> env" where
  "example_env response =
     \<lparr>now_valid1 = 400000, now_valid2 = 400001, now_write = 400002, now_score = (\<lambda>i. 0),
      user_cached = Inr ''me'', api_response = response, user_fresh = Inr ''me''\<rparr>"

section \<open>Properties of the sort\<close>

lemma mset_insert_by: "mset (insert_by cmp x ys) = add_mset x (mset ys)"
  by (induction ys) auto

lemma mset_array_sort: "mset (array_sort cmp xs) = mset xs"
  by (induction xs) (auto simp: array_sort_def mset_insert_by)

lemma set_insert_by: "set (insert_by cmp x ys) = insert x (set ys)"
  by (induction ys) auto

lemma length_array_sort: "length (array_sort cmp xs) = length xs"
  using mset_array_sort [of cmp xs] by (metis size_mset)

lemma set_array_sort: "set (array_sort cmp xs) = set xs"
  using mset_array_sort [of cmp xs] by (metis set_mset_mset)

lemma sorted_insert_by:
  assumes "consistent cmp" and "sorted_wrt (\<lambda>a b. cmp a b \<le> 0) ys"
  shows "sorted_wrt (\<lambda>a b. cmp a b \<le> 0) (insert_by cmp x ys)"
  using assms(2)
proof (induction ys)
  case Nil
  then show ?case by simp
next
  case (Cons y ys)
  show ?case
  proof (cases "cmp x y \<le> 0")
    case True
    have "cmp x z \<le> 0" if "z \<in> set ys" for z
    proof -
      from Cons.prems that have "cmp y z \<le> 0" by simp
      with True assms(1) show ?thesis unfolding consistent_def by blast
    qed
    with True Cons.prems show ?thesis by simp
  next
    case False
    then have "cmp y x \<le> 0"
      using assms(1) unfolding consistent_def by (meson not_le)
    with False Cons show ?thesis by (auto simp: set_insert_by)
  qed
qed

lemma sorted_array_sort:
  "consistent cmp \<Longrightarrow> sorted_wrt (\<lambda>a b. cmp a b \<le> 0) (array_sort cmp xs)"
  by (induction xs) (auto simp: array_sort_def sorted_insert_by)

text \<open>
  Stability: an element is never moved past one it does not compare greater than, so
  the elements of a class whose members all tie keep their input order.
\<close>

lemma filter_insert_by:
  assumes "\<forall>y \<in> set ys. P x \<and> P y \<longrightarrow> cmp x y \<le> 0"
  shows "filter P (insert_by cmp x ys) = (if P x then x # filter P ys else filter P ys)"
  using assms by (induction ys) auto

lemma filter_array_sort:
  assumes "\<forall>a b. P a \<and> P b \<longrightarrow> cmp a b \<le> 0"
  shows "filter P (array_sort cmp xs) = filter P xs"
proof (induction xs)
  case Nil
  show ?case by (simp add: array_sort_def)
next
  case (Cons x xs)
  have "filter P (insert_by cmp x (array_sort cmp xs)) =
          (if P x then x # filter P (array_sort cmp xs) else filter P (array_sort cmp xs))"
    by (rule filter_insert_by) (use assms in blast)
  with Cons show ?case by (simp add: array_sort_def)
qed

text \<open>
  The result does not depend on the sorting algorithm: for a consistent comparator, a
  list that is sorted and that keeps, in every class of elements that tie, the order of
  the input is the list \<open>array_sort\<close> returns.
\<close>

lemma consistent_refl: "consistent cmp \<Longrightarrow> cmp x x \<le> 0"
  unfolding consistent_def by (meson not_le)

lemma stable_sorted_unique:
  assumes "consistent cmp"
    and "sorted_wrt (\<lambda>a b. cmp a b \<le> 0) ys"
    and "sorted_wrt (\<lambda>a b. cmp a b \<le> 0) zs"
    and "\<And>x. filter (\<lambda>y. cmp x y \<le> 0 \<and> cmp y x \<le> 0) ys =
              filter (\<lambda>y. cmp x y \<le> 0 \<and> cmp y x \<le> 0) zs"
  shows "ys = zs"
  using assms(2-4)
proof (induction ys arbitrary: zs)
  case Nil
  show ?case
  proof (cases zs)
    case Nil
    then show ?thesis by simp
  next
    case (Cons z zs')
    with Nil.prems(3) [of z] consistent_refl [OF assms(1), of z] show ?thesis by simp
  qed
next
  case (Cons y ys)
  let ?E = "\<lambda>x y. cmp x y \<le> 0 \<and> cmp y x \<le> 0"
  have yy: "cmp y y \<le> 0" by (rule consistent_refl [OF assms(1)])
  from Cons.prems(3) [of y] yy have fy: "filter (?E y) zs = y # filter (?E y) ys" by simp
  then obtain z zs' where zs: "zs = z # zs'" by (cases zs) auto
  have "y \<in> set (filter (?E y) zs)" using fy by simp
  then have y_in: "y \<in> set zs" by simp
  have zy: "cmp z y \<le> 0"
  proof (cases "y = z")
    case True
    with yy show ?thesis by simp
  next
    case False
    with y_in zs have "y \<in> set zs'" by simp
    with Cons.prems(2) zs show ?thesis by simp
  qed
  have zz: "cmp z z \<le> 0" by (rule consistent_refl [OF assms(1)])
  from Cons.prems(3) [of z] zs zz
  have fz: "filter (?E z) (y # ys) = z # filter (?E z) zs'" by simp
  then have "z \<in> set (filter (?E z) (y # ys))" by simp
  then have z_in: "z \<in> set (y # ys)" by (metis filter_is_subset subsetD)
  have yz: "cmp y z \<le> 0"
  proof (cases "y = z")
    case True
    with yy show ?thesis by simp
  next
    case False
    with z_in have "z \<in> set ys" by simp
    with Cons.prems(1) show ?thesis by simp
  qed
  from fy zs zy yz have eq: "y = z" by simp
  have "ys = zs'"
  proof (rule Cons.IH)
    show "sorted_wrt (\<lambda>a b. cmp a b \<le> 0) ys" using Cons.prems(1) by simp
    show "sorted_wrt (\<lambda>a b. cmp a b \<le> 0) zs'" using Cons.prems(2) zs by simp
    fix x
    from Cons.prems(3) [of x] zs eq
    show "filter (?E x) ys = filter (?E x) zs'" by (simp split: if_splits)
  qed
  with eq zs show ?case by simp
qed

lemma array_sort_stable:
  assumes "consistent cmp"
  shows "filter (\<lambda>y. cmp x y \<le> 0 \<and> cmp y x \<le> 0) (array_sort cmp xs) =
         filter (\<lambda>y. cmp x y \<le> 0 \<and> cmp y x \<le> 0) xs"
proof (rule filter_array_sort, intro allI impI)
  fix a b
  assume "(cmp x a \<le> 0 \<and> cmp a x \<le> 0) \<and> cmp x b \<le> 0 \<and> cmp b x \<le> 0"
  with assms show "cmp a b \<le> 0" unfolding consistent_def by blast
qed

lemma array_sort_unique:
  assumes "consistent cmp"
    and "sorted_wrt (\<lambda>a b. cmp a b \<le> 0) ys"
    and "\<And>x. filter (\<lambda>y. cmp x y \<le> 0 \<and> cmp y x \<le> 0) ys =
              filter (\<lambda>y. cmp x y \<le> 0 \<and> cmp y x \<le> 0) xs"
  shows "ys = array_sort cmp xs"
proof (rule stable_sorted_unique [OF assms(1,2)])
  show "sorted_wrt (\<lambda>a b. cmp a b \<le> 0) (array_sort cmp xs)"
    by (rule sorted_array_sort [OF assms(1)])
  fix x
  show "filter (\<lambda>y. cmp x y \<le> 0 \<and> cmp y x \<le> 0) ys =
        filter (\<lambda>y. cmp x y \<le> 0 \<and> cmp y x \<le> 0) (array_sort cmp xs)"
    by (simp add: assms(3) array_sort_stable [OF assms(1)])
qed

lemma compareByAccess_le:
  "compareByAccess m a b \<le> 0 \<longleftrightarrow>
     accessTimeOr0 m (id_repo b) < accessTimeOr0 m (id_repo a) \<or>
     (accessTimeOr0 m (id_repo a) = accessTimeOr0 m (id_repo b) \<and> usageScore b \<le> usageScore a)"
  by (auto simp: compareByAccess_def Let_def)

lemma consistent_compareByAccess: "consistent (compareByAccess m)"
  unfolding consistent_def
proof (intro conjI allI impI)
  fix a b
  assume "0 < compareByAccess m a b"
  then have "\<not> compareByAccess m a b \<le> 0" by simp
  then show "compareByAccess m b a \<le> 0"
    unfolding compareByAccess_le by auto
next
  fix a b c
  assume "compareByAccess m a b \<le> 0 \<and> compareByAccess m b c \<le> 0"
  then show "compareByAccess m a c \<le> 0"
    unfolding compareByAccess_le by auto
qed

lemma sorted_sortRepositoriesByAccess:
  "sorted_wrt (\<lambda>a b. compareByAccess m a b \<le> 0) (sortRepositoriesByAccess repos m)"
  unfolding sortRepositoriesByAccess_def
  by (rule sorted_array_sort) (rule consistent_compareByAccess)



lemma accessTimeOr0_eq:
  "accessTimeOr0 m k = (case m k of None \<Rightarrow> 0 | Some t \<Rightarrow> t)"
  by (simp add: accessTimeOr0_def split: option.splits)

section \<open>Ranking: access time first\<close>

text \<open>
  C1. For repositories \<open>A\<close> and \<open>B\<close> of the input of \<^verbatim>\<open>sortRepositoriesByAccess\<close>,
  if the access mapping holds a strictly greater timestamp for \<open>A\<close> than for \<open>B\<close>
  (a missing entry counting as 0), both are in the output and every occurrence of \<open>A\<close>
  stands before every occurrence of \<open>B\<close>, whatever their usage scores.
\<close>

theorem C1_recent_access_first:
  assumes "A \<in> set repos" and "B \<in> set repos"
    and "(case accessTimes (id_repo B) of None \<Rightarrow> 0 | Some t \<Rightarrow> t)
           < (case accessTimes (id_repo A) of None \<Rightarrow> 0 | Some t \<Rightarrow> t)"
  shows "A \<in> set (sortRepositoriesByAccess repos accessTimes) \<and>
         B \<in> set (sortRepositoriesByAccess repos accessTimes) \<and>
         (\<forall>i j. i < length (sortRepositoriesByAccess repos accessTimes) \<and>
                j < length (sortRepositoriesByAccess repos accessTimes) \<and>
                sortRepositoriesByAccess repos accessTimes ! i = A \<and>
                sortRepositoriesByAccess repos accessTimes ! j = B \<longrightarrow> i < j)"
proof -
  let ?out = "sortRepositoriesByAccess repos accessTimes"
  have mem: "set ?out = set repos"
    by (simp add: sortRepositoriesByAccess_def set_array_sort)
  have lt: "accessTimeOr0 accessTimes (id_repo B) < accessTimeOr0 accessTimes (id_repo A)"
    using assms(3) by (simp add: accessTimeOr0_eq)
  have "i < j" if "i < length ?out" "j < length ?out" "?out ! i = A" "?out ! j = B" for i j
  proof (rule ccontr)
    assume "\<not> i < j"
    with that lt have "j < i" by (cases "i = j") auto
    with that(1) have "compareByAccess accessTimes (?out ! j) (?out ! i) \<le> 0"
      using sorted_sortRepositoriesByAccess [of accessTimes repos]
      by (simp add: sorted_wrt_iff_nth_less)
    with that lt show False by (simp add: compareByAccess_le)
  qed
  with mem assms(1,2) show ?thesis by blast
qed

text \<open>
  The example of the specification: \<open>A\<close> accessed at 100 with score 0, \<open>B\<close> never
  accessed with score 1000, \<open>B\<close> first in the input.
\<close>

theorem C1_recent_access_first_witness:
  "example_repo ''1'' 0 \<in> set [example_repo ''2'' 1000, example_repo ''1'' 0] \<and>
   example_repo ''2'' 1000 \<in> set [example_repo ''2'' 1000, example_repo ''1'' 0] \<and>
   (case [''1'' \<mapsto> 100::int] ''2'' of None \<Rightarrow> 0 | Some t \<Rightarrow> t)
     < (case [''1'' \<mapsto> 100::int] ''1'' of None \<Rightarrow> 0 | Some t \<Rightarrow> t) \<and>
   sortRepositoriesByAccess [example_repo ''2'' 1000, example_repo ''1'' 0] [''1'' \<mapsto> 100]
     = [example_repo ''1'' 0, example_repo ''2'' 1000]"
  using C1_recent_access_first [of "example_repo ''1'' 0"
      "[example_repo ''2'' 1000, example_repo ''1'' 0]" "example_repo ''2'' 1000"
      "[''1'' \<mapsto> 100]"]
  by (simp add: sortRepositoriesByAccess_def array_sort_def compareByAccess_def
      accessTimeOr0_def example_repo_def)

section \<open>Ranking: ties\<close>

text \<open>
  C5. Among repositories with equal access timestamps (a missing entry counting as 0,
  so also among those never accessed) the output of \<^verbatim>\<open>sortRepositoriesByAccess\<close> is in
  descending order of \<^verbatim>\<open>usageScore\<close>: the one with the strictly greater score stands
  first. The repositories that share both the timestamp and the score keep the order
  they have in the input.
\<close>

theorem C5_ties_by_score_then_stable:
  "(\<forall>i j. i < length (sortRepositoriesByAccess repos accessTimes) \<and>
          j < length (sortRepositoriesByAccess repos accessTimes) \<and>
          (case accessTimes (id_repo (sortRepositoriesByAccess repos accessTimes ! i))
             of None \<Rightarrow> 0 | Some t \<Rightarrow> t) =
          (case accessTimes (id_repo (sortRepositoriesByAccess repos accessTimes ! j))
             of None \<Rightarrow> 0 | Some t \<Rightarrow> t) \<and>
          usageScore (sortRepositoriesByAccess repos accessTimes ! j)
            < usageScore (sortRepositoriesByAccess repos accessTimes ! i)
          \<longrightarrow> i < j) \<and>
   (\<forall>t s. filter (\<lambda>r. (case accessTimes (id_repo r) of None \<Rightarrow> 0 | Some t \<Rightarrow> t) = t \<and>
                       usageScore r = s)
             (sortRepositoriesByAccess repos accessTimes) =
          filter (\<lambda>r. (case accessTimes (id_repo r) of None \<Rightarrow> 0 | Some t \<Rightarrow> t) = t \<and>
                       usageScore r = s) repos)"
proof (intro conjI allI impI)
  let ?out = "sortRepositoriesByAccess repos accessTimes"
  fix i j
  assume h: "i < length ?out \<and> j < length ?out \<and>
     (case accessTimes (id_repo (?out ! i)) of None \<Rightarrow> 0 | Some t \<Rightarrow> t) =
     (case accessTimes (id_repo (?out ! j)) of None \<Rightarrow> 0 | Some t \<Rightarrow> t) \<and>
     usageScore (?out ! j) < usageScore (?out ! i)"
  show "i < j"
  proof (rule ccontr)
    assume "\<not> i < j"
    with h have "j < i" by (cases "i = j") auto
    with h have "compareByAccess accessTimes (?out ! j) (?out ! i) \<le> 0"
      using sorted_sortRepositoriesByAccess [of accessTimes repos]
      by (simp add: sorted_wrt_iff_nth_less)
    with h show False by (simp add: compareByAccess_le accessTimeOr0_eq)
  qed
next
  fix t s
  show "filter (\<lambda>r. (case accessTimes (id_repo r) of None \<Rightarrow> 0 | Some t \<Rightarrow> t) = t \<and>
                       usageScore r = s)
             (sortRepositoriesByAccess repos accessTimes) =
          filter (\<lambda>r. (case accessTimes (id_repo r) of None \<Rightarrow> 0 | Some t \<Rightarrow> t) = t \<and>
                       usageScore r = s) repos"
    unfolding sortRepositoriesByAccess_def
    by (rule filter_array_sort) (simp add: compareByAccess_le accessTimeOr0_eq)
qed

text \<open>
  Three repositories never accessed, with scores 5, 9, 5: the score 9 comes first, the
  two with score 5 stay in input order.
\<close>

theorem C5_ties_by_score_then_stable_witness:
  "sortRepositoriesByAccess
     [example_repo ''1'' 5, example_repo ''2'' 9, example_repo ''3'' 5] Map.empty
   = [example_repo ''2'' 9, example_repo ''1'' 5, example_repo ''3'' 5]"
  using C5_ties_by_score_then_stable
    [of "[example_repo ''1'' 5, example_repo ''2'' 9, example_repo ''3'' 5]" Map.empty]
  by (simp add: sortRepositoriesByAccess_def array_sort_def compareByAccess_def
      accessTimeOr0_def example_repo_def)

section \<open>Ranking: permutation\<close>

text \<open>
  C6. The output of \<^verbatim>\<open>sortRepositoriesByAccess\<close> is a permutation of its input: the
  same repositories with the same multiplicities, hence the same ids with the same
  multiplicities, and the same length.
\<close>

theorem C6_rank_is_permutation:
  "mset (sortRepositoriesByAccess repos accessTimes) = mset repos \<and>
   mset (map id_repo (sortRepositoriesByAccess repos accessTimes)) = mset (map id_repo repos) \<and>
   length (sortRepositoriesByAccess repos accessTimes) = length repos"
proof -
  have m: "mset (sortRepositoriesByAccess repos accessTimes) = mset repos"
    by (simp add: sortRepositoriesByAccess_def mset_array_sort)
  have "mset (map id_repo (sortRepositoriesByAccess repos accessTimes)) =
        image_mset id_repo (mset (sortRepositoriesByAccess repos accessTimes))"
    by simp
  with m show ?thesis
    by (simp add: sortRepositoriesByAccess_def length_array_sort)
qed


section \<open>Decimal rendering and parsing\<close>

lemma digit_cases:
  assumes "d < (10::nat)"
  shows "d = 0 \<or> d = 1 \<or> d = 2 \<or> d = 3 \<or> d = 4 \<or> d = 5 \<or> d = 6 \<or> d = 7 \<or> d = 8 \<or> d = 9"
  using assms by arith

lemma is_digit_digit_char: "d < 10 \<Longrightarrow> is_digit (digit_char d)"
  using digit_cases [of d] by (auto simp: is_digit_def digit_char_def)

lemma digit_val_digit_char: "d < 10 \<Longrightarrow> digit_val (digit_char d) = d"
  using digit_cases [of d] by (auto simp: digit_val_def digit_char_def)

lemma not_space_digit_char: "d < 10 \<Longrightarrow> \<not> is_space (digit_char d)"
  using digit_cases [of d] by (auto simp: is_space_def digit_char_def)

lemma digit_char_not_sign:
  "d < 10 \<Longrightarrow> digit_char d \<noteq> CHR ''-'' \<and> digit_char d \<noteq> CHR ''+''"
  using digit_cases [of d] by (auto simp: digit_char_def)

lemma nat_digits_all_digits: "c \<in> set (nat_digits n) \<Longrightarrow> is_digit c"
proof (induction n rule: nat_digits.induct)
  case (1 n)
  show ?case
  proof (cases "n < 10")
    case True
    with 1(2) show ?thesis
      by (subst (asm) nat_digits.simps) (auto simp: is_digit_digit_char)
  next
    case False
    with 1(2) have "c \<in> set (nat_digits (n div 10)) \<or> c = digit_char (n mod 10)"
      by (subst (asm) nat_digits.simps) auto
    with False 1(1) show ?thesis by (auto simp: is_digit_digit_char)
  qed
qed

lemma digits_value_append:
  "digits_value acc (xs @ ys) = digits_value (digits_value acc xs) ys"
  by (induction xs arbitrary: acc) auto

lemma nat_digits_not_Nil: "nat_digits n \<noteq> []"
  by (subst nat_digits.simps) auto

lemma digits_value_nat_digits: "digits_value 0 (nat_digits n) = n"
proof (induction n rule: nat_digits.induct)
  case (1 n)
  show ?case
  proof (cases "n < 10")
    case True
    then show ?thesis by (subst nat_digits.simps) (simp add: digit_val_digit_char)
  next
    case False
    with 1 have "digits_value 0 (nat_digits (n div 10)) = n div 10" by simp
    with False show ?thesis
      by (subst nat_digits.simps) (simp add: digits_value_append digit_val_digit_char)
  qed
qed

lemma hd_nat_digits: "\<exists>d < 10. hd (nat_digits n) = digit_char d"
proof (induction n rule: nat_digits.induct)
  case (1 n)
  show ?case
  proof (cases "n < 10")
    case True
    then show ?thesis by (subst nat_digits.simps) auto
  next
    case False
    with 1 show ?thesis
      by (subst nat_digits.simps) (simp add: nat_digits_not_Nil)
  qed
qed


lemma takeWhile_is_digit_nat_digits: "takeWhile is_digit (nat_digits n) = nat_digits n"
  by (simp add: takeWhile_eq_all_conv nat_digits_all_digits)

lemma nat_digits_Cons: "\<exists>d cs. d < 10 \<and> nat_digits n = digit_char d # cs"
  using hd_nat_digits [of n] nat_digits_not_Nil [of n]
  by (cases "nat_digits n") auto

lemma parseInt_nat_digits: "parseInt (nat_digits n) = Some (int n)"
proof -
  obtain d cs where d: "d < 10" and eq: "nat_digits n = digit_char d # cs"
    using nat_digits_Cons by blast
  have "takeWhile is_digit (digit_char d # cs) = digit_char d # cs"
    using takeWhile_is_digit_nat_digits [of n] eq by simp
  moreover have "digits_value 0 (digit_char d # cs) = n"
    using digits_value_nat_digits [of n] eq by simp
  ultimately show ?thesis
    using d not_space_digit_char [of d] digit_char_not_sign [of d]
    unfolding parseInt_def eq by (simp add: Let_def)
qed

lemma parseInt_minus_nat_digits: "parseInt (CHR ''-'' # nat_digits n) = Some (- int n)"
proof -
  have "\<not> is_space CHR ''-''" by (simp add: is_space_def)
  then show ?thesis
    unfolding parseInt_def
    by (simp add: Let_def takeWhile_is_digit_nat_digits nat_digits_not_Nil
        digits_value_nat_digits)
qed

lemma parseInt_toString: "parseInt (toString n) = Some n"
  by (simp add: toString_def parseInt_nat_digits parseInt_minus_nat_digits)

lemma toString_not_Nil: "toString n \<noteq> []"
  by (simp add: toString_def nat_digits_not_Nil)

lemma isCacheValid_setCachedRepositories:
  "isCacheValid (setCachedRepositories repos fetchedAt st) now \<longleftrightarrow>
     now - fetchedAt < CACHE_DURATION"
  by (simp add: isCacheValid_def setCachedRepositories_def Let_def parseInt_toString
      toString_not_Nil)

section \<open>Cache freshness\<close>

text \<open>
  C4. \<^verbatim>\<open>isCacheValid\<close> returns true exactly when a fetch timestamp is stored (a
  non-empty string that \<^verbatim>\<open>parseInt\<close> reads) and the time elapsed since it is strictly
  less than \<^verbatim>\<open>CACHE_DURATION\<close>, which is 5 minutes in milliseconds. After
  \<^verbatim>\<open>setCachedRepositories\<close> at the instant \<open>fetchedAt\<close> the cache is valid at \<open>now\<close>
  exactly when \<open>now - fetchedAt\<close> is less than 5 minutes: valid 4 minutes 59 seconds
  later, not valid 5 minutes 0 seconds later.
\<close>

theorem C4_isCacheValid:
  "(isCacheValid st now \<longleftrightarrow>
      (\<exists>timestamp fetchedAt. cache_timestamp_item st = Some timestamp \<and> timestamp \<noteq> [] \<and>
         parseInt timestamp = Some fetchedAt \<and> now - fetchedAt < CACHE_DURATION)) \<and>
   CACHE_DURATION = 5 * 60 * 1000 \<and>
   (isCacheValid (setCachedRepositories repos fetchedAt st) now \<longleftrightarrow>
      now - fetchedAt < 5 * 60 * 1000) \<and>
   isCacheValid (setCachedRepositories repos fetchedAt st) (fetchedAt + (4 * 60 + 59) * 1000) \<and>
   \<not> isCacheValid (setCachedRepositories repos fetchedAt st) (fetchedAt + 5 * 60 * 1000)"
proof (intro conjI)
  show "isCacheValid st now \<longleftrightarrow>
      (\<exists>timestamp fetchedAt. cache_timestamp_item st = Some timestamp \<and> timestamp \<noteq> [] \<and>
         parseInt timestamp = Some fetchedAt \<and> now - fetchedAt < CACHE_DURATION)"
    by (auto simp: isCacheValid_def Let_def split: option.splits)
  show "CACHE_DURATION = 5 * 60 * 1000"
    by (simp add: CACHE_DURATION_def)
  show "isCacheValid (setCachedRepositories repos fetchedAt st) now \<longleftrightarrow>
      now - fetchedAt < 5 * 60 * 1000"
    by (simp add: isCacheValid_setCachedRepositories CACHE_DURATION_def)
  show "isCacheValid (setCachedRepositories repos fetchedAt st) (fetchedAt + (4 * 60 + 59) * 1000)"
    by (simp add: isCacheValid_setCachedRepositories CACHE_DURATION_def)
  show "\<not> isCacheValid (setCachedRepositories repos fetchedAt st) (fetchedAt + 5 * 60 * 1000)"
    by (simp add: isCacheValid_setCachedRepositories CACHE_DURATION_def)
qed

section \<open>The usage score\<close>

text \<open>
  C7. With no stars and \<^verbatim>\<open>updated_at\<close> and \<^verbatim>\<open>pushed_at\<close> equal to the current
  instant, \<^verbatim>\<open>calculateUsageScore\<close> returns exactly 200: each exponential is
  \<open>exp 0 * 100 = 100\<close> and the stars add \<open>0 * 2\<close>. (In the source every intermediate
  value, 0, -0, 1, 100 and 200, is a double, and \<^verbatim>\<open>Math.exp(-0)\<close> is 1 by the language
  standard, so the floating-point evaluation gives the same number.)
\<close>

theorem C7_score_at_zero_age: "calculateUsageScore now 0 now now = 200"
  by (simp add: calculateUsageScore_def Let_def)

text \<open>
  C8. For fixed \<^verbatim>\<open>updated_at\<close>, \<^verbatim>\<open>pushed_at\<close> and current instant,
  \<^verbatim>\<open>calculateUsageScore\<close> is non-decreasing in the number of stars.
\<close>

theorem C8_score_monotone_in_stars:
  assumes "s1 \<le> s2"
  shows "calculateUsageScore now s1 updated_at pushed_at
           \<le> calculateUsageScore now s2 updated_at pushed_at"
  using assms by (simp add: calculateUsageScore_def Let_def)

text \<open>Three stars against five, both repositories touched at the current instant.\<close>

theorem C8_score_monotone_in_stars_witness:
  "(3::nat) \<le> 5 \<and> calculateUsageScore 1000 3 1000 1000 = 206 \<and>
   calculateUsageScore 1000 5 1000 1000 = 210 \<and>
   calculateUsageScore 1000 3 1000 1000 \<le> calculateUsageScore 1000 5 1000 1000"
  using C8_score_monotone_in_stars [of 3 5 1000 1000 1000]
  by (simp add: calculateUsageScore_def Let_def)

section \<open>The access ledger\<close>

text \<open>
  C9. After \<^verbatim>\<open>updateAccessTime(repoId)\<close>, \<^verbatim>\<open>getAccessTimes()\<close> binds \<open>repoId\<close> to
  the instant of the call and every other id to what it was bound to before; no entry
  is removed, and the cached repositories and their timestamp are not touched.
\<close>

theorem C9_recordAccess_frame:
  "getAccessTimes (updateAccessTime repoId now st) repoId = Some now \<and>
   (\<forall>other. other \<noteq> repoId \<longrightarrow>
      getAccessTimes (updateAccessTime repoId now st) other = getAccessTimes st other) \<and>
   dom (getAccessTimes st) \<subseteq> dom (getAccessTimes (updateAccessTime repoId now st)) \<and>
   cache_item (updateAccessTime repoId now st) = cache_item st \<and>
   cache_timestamp_item (updateAccessTime repoId now st) = cache_timestamp_item st"
  by (auto simp: getAccessTimes_def updateAccessTime_def Let_def)


text \<open>A ledger with two entries; the first is accessed again at 300.\<close>

theorem C9_recordAccess_frame_witness:
  "''2'' \<noteq> ''1'' \<and>
   getAccessTimes (updateAccessTime ''1'' 300 example_storage) ''1'' = Some 300 \<and>
   getAccessTimes (updateAccessTime ''1'' 300 example_storage) ''2'' = Some 200 \<and>
   getAccessTimes example_storage ''2'' = Some 200"
  using C9_recordAccess_frame [of "''1''" 300 example_storage]
  by (simp add: getAccessTimes_def updateAccessTime_def example_storage_def)



text \<open>
  \<^verbatim>\<open>handleRepositoryClick\<close> records the access and ranks the repositories it holds
  with the updated ledger, without fetching.
\<close>

lemma handleRepositoryClick_reranks:
  "fst (handleRepositoryClick repoId now st ui) = updateAccessTime repoId now st \<and>
   sortedRepositories (snd (handleRepositoryClick repoId now st ui)) =
     sortRepositoriesByAccess (repositories ui) ((getAccessTimes st)(repoId \<mapsto> now))"
  by (simp add: handleRepositoryClick_def Let_def updateAccessTime_def getAccessTimes_def)

section \<open>Fetching\<close>

lemma consistent_by_score: "consistent (\<lambda>a b :: repository. usageScore b - usageScore a)"
  unfolding consistent_def by auto

lemma sorted_by_score:
  "sorted_wrt (\<lambda>a b. usageScore b \<le> usageScore a)
     (array_sort (\<lambda>a b. usageScore b - usageScore a) (xs :: repository list))"
  using sorted_array_sort [OF consistent_by_score, of xs] by simp

lemma sorted_wrt_adjacent:
  "sorted_wrt P xs \<Longrightarrow> Suc i < length xs \<Longrightarrow> P (xs ! i) (xs ! Suc i)"
  by (simp add: sorted_wrt_iff_nth_less)

text \<open>
  C10. When the API call succeeds, \<^verbatim>\<open>fetchRepositories\<close> and
  \<^verbatim>\<open>fetchRepositoriesByOwner\<close> return one repository per element of the response, in
  non-increasing order of \<^verbatim>\<open>usageScore\<close>: each repository's score is at least the
  score of the one after it.
\<close>

theorem C10_fetch_sorted_by_score:
  "(\<exists>out. fetchRepositories clock (Inr repos) = Inr out \<and> length out = length repos \<and>
      (\<forall>i. Suc i < length out \<longrightarrow> usageScore (out ! Suc i) \<le> usageScore (out ! i))) \<and>
   (\<exists>out. fetchRepositoriesByOwner clock (Inr repos) = Inr out \<and> length out = length repos \<and>
      (\<forall>i. Suc i < length out \<longrightarrow> usageScore (out ! Suc i) \<le> usageScore (out ! i)))"
  by (auto simp: fetchRepositories_def fetchRepositoriesByOwner_def Let_def length_array_sort
      intro: sorted_wrt_adjacent [OF sorted_by_score])

text \<open>
  Three repositories with 0, 10 and 5 stars, all updated at the instant of the fetch:
  the scores are 200, 220 and 210, and the result is in the order 10, 5, 0 stars.
\<close>

theorem C10_fetch_sorted_by_score_witness:
  "map (\<lambda>r. (id_repo r, stars r, usageScore r))
     (projr (fetchRepositories (\<lambda>i. 0)
        (Inr [example_api_repo 1 0, example_api_repo 2 10, example_api_repo 3 5])))
   = [(''2'', 10, 220), (''3'', 5, 210), (''1'', 0, 200)]"
  using C10_fetch_sorted_by_score [of "\<lambda>i. 0"
     "[example_api_repo 1 0, example_api_repo 2 10, example_api_repo 3 5]"]
  by (simp add: fetchRepositories_def Let_def array_sort_def toRepository_def
      calculateUsageScore_def example_api_repo_def toString_def nat_digits.simps
      digit_char_def enumerate_eq_zip upt_rec)





section \<open>The load flow\<close>

lemma sortRepositoriesByAccess_Nil_iff:
  "sortRepositoriesByAccess c m = [] \<longleftrightarrow> c = []"
  using length_array_sort [of "compareByAccess m" c]
  unfolding sortRepositoriesByAccess_def by (metis length_0_conv)

text \<open>
  C2. When \<^verbatim>\<open>LocalStorage\<close> holds cached repositories, the state the command shows
  at the moment the first request of \<^verbatim>\<open>loadRepositories\<close> is sent (or at the end of
  the flow, when it sends none) has \<^verbatim>\<open>sortedRepositories\<close> equal to the cached
  repositories ranked with the recorded access times and no error; so has the state at
  the moment \<^verbatim>\<open>fetchRepositories\<close> is called. When the cached array is not empty,
  what is rendered in both states is the list of the ranked cached repositories. (For an
  empty cached array the flow calls no setter: the ranked list is the initial, empty
  one.)
\<close>

theorem C2_cache_shown_before_requests:
  assumes "getCachedRepositories st = Some c"
  shows "sortedRepositories (ui_after (takeWhile (\<lambda>ev. \<not> is_request ev) (fst (loadRepositories e st))))
           = sortRepositoriesByAccess c (getAccessTimes st) \<and>
         error (ui_after (takeWhile (\<lambda>ev. \<not> is_request ev) (fst (loadRepositories e st)))) = None \<and>
         sortedRepositories (ui_after (takeWhile (\<lambda>ev. ev \<noteq> FetchRepositories) (fst (loadRepositories e st))))
           = sortRepositoriesByAccess c (getAccessTimes st) \<and>
         error (ui_after (takeWhile (\<lambda>ev. ev \<noteq> FetchRepositories) (fst (loadRepositories e st)))) = None \<and>
         (c \<noteq> [] \<longrightarrow>
            render (ui_after (takeWhile (\<lambda>ev. \<not> is_request ev) (fst (loadRepositories e st))))
              = ListView (sortRepositoriesByAccess c (getAccessTimes st)) \<and>
            render (ui_after (takeWhile (\<lambda>ev. ev \<noteq> FetchRepositories) (fst (loadRepositories e st))))
              = ListView (sortRepositoriesByAccess c (getAccessTimes st)))"
proof -
  let ?tr = "fst (loadRepositories e st)"
  let ?rank = "sortRepositoriesByAccess c (getAccessTimes st)"
  have a: "sortedRepositories (ui_after (takeWhile (\<lambda>ev. \<not> is_request ev) ?tr)) = ?rank \<and>
           error (ui_after (takeWhile (\<lambda>ev. \<not> is_request ev) ?tr)) = None"
    using assms
    by (auto simp: loadRepositories_def load_try_def Let_def ui_after_def initial_ui_def
        sortRepositoriesByAccess_def array_sort_def
        split: option.splits sum.splits prod.splits if_splits)
  have b: "sortedRepositories (ui_after (takeWhile (\<lambda>ev. ev \<noteq> FetchRepositories) ?tr)) = ?rank \<and>
           error (ui_after (takeWhile (\<lambda>ev. ev \<noteq> FetchRepositories) ?tr)) = None"
    using assms
    by (auto simp: loadRepositories_def load_try_def Let_def ui_after_def initial_ui_def
        sortRepositoriesByAccess_def array_sort_def
        split: option.splits sum.splits prod.splits if_splits)
  have "render ui = ListView ?rank"
    if "c \<noteq> []" "sortedRepositories ui = ?rank" "error ui = None" for ui
    using that by (simp add: render_def sortRepositoriesByAccess_Nil_iff)
  with a b show ?thesis by blast
qed

text \<open>
  A stale cache of two repositories, the second one accessed, and a fetch that fails:
  the ranked cache is on display before the first request.
\<close>

theorem C2_cache_shown_before_requests_witness:
  "getCachedRepositories example_cached_storage
     = Some [example_repo ''1'' 1000, example_repo ''2'' 0] \<and>
   fst (loadRepositories (example_env (Inl (Error ''offline''))) example_cached_storage)
     = [SetRepositories [example_repo ''1'' 1000, example_repo ''2'' 0],
        SetAccessTimes [''2'' \<mapsto> 100],
        SetSortedRepositories [example_repo ''2'' 0, example_repo ''1'' 1000],
        GetAuthenticated, SetCurrentUser ''me'',
        SetError None, FetchRepositories,
        SetError (Some ''offline''), ShowToast ''offline'', SetIsLoading False] \<and>
   render (ui_after (takeWhile (\<lambda>ev. \<not> is_request ev)
       (fst (loadRepositories (example_env (Inl (Error ''offline''))) example_cached_storage))))
     = ListView [example_repo ''2'' 0, example_repo ''1'' 1000]"
  using C2_cache_shown_before_requests [of example_cached_storage
      "[example_repo ''1'' 1000, example_repo ''2'' 0]" "example_env (Inl (Error ''offline''))"]
  by (simp add: getCachedRepositories_def example_cached_storage_def example_env_def
      loadRepositories_def load_try_def Let_def getAccessTimes_def isCacheValid_def
      parseInt_def is_space_def is_digit_def digit_val_def CACHE_DURATION_def
      fetchRepositories_def handleGitHubError_def
      sortRepositoriesByAccess_def array_sort_def compareByAccess_def accessTimeOr0_def
      example_repo_def ui_after_def initial_ui_def render_def)

text \<open>
  C3. When \<^verbatim>\<open>fetchRepositories\<close> fails, \<^verbatim>\<open>loadRepositories\<close> leaves
  \<^verbatim>\<open>LocalStorage\<close> as it found it and never calls \<^verbatim>\<open>LocalStorage.setItem\<close>.
  When the storage has changed, or \<^verbatim>\<open>setItem\<close> was called, then
  \<^verbatim>\<open>fetchRepositories\<close> was called and returned, and the storage is the old one with
  both the cached repositories and the timestamp replaced, by the fetched repositories
  and the instant of the write.
\<close>

theorem C3_cache_written_only_on_success:
  "(\<forall>err. fetchRepositories (now_score e) (api_response e) = Inl err \<longrightarrow>
      snd (loadRepositories e st) = st \<and>
      (\<forall>k. SetItem k \<notin> set (fst (loadRepositories e st)))) \<and>
   (snd (loadRepositories e st) \<noteq> st \<or> (\<exists>k. SetItem k \<in> set (fst (loadRepositories e st))) \<longrightarrow>
      (\<exists>repos. fetchRepositories (now_score e) (api_response e) = Inr repos \<and>
         FetchRepositories \<in> set (fst (loadRepositories e st)) \<and>
         snd (loadRepositories e st) =
           st\<lparr>cache_item := Some repos, cache_timestamp_item := Some (toString (now_write e))\<rparr>))"
proof (intro conjI allI impI)
  fix err
  assume "fetchRepositories (now_score e) (api_response e) = Inl err"
  then show "snd (loadRepositories e st) = st"
    by (simp add: loadRepositories_def load_try_def Let_def split: option.splits)
next
  fix err k
  assume "fetchRepositories (now_score e) (api_response e) = Inl err"
  then show "SetItem k \<notin> set (fst (loadRepositories e st))"
    by (auto simp: loadRepositories_def load_try_def Let_def
        split: option.splits sum.splits if_splits)
next
  assume h: "snd (loadRepositories e st) \<noteq> st \<or> (\<exists>k. SetItem k \<in> set (fst (loadRepositories e st)))"
  show "\<exists>repos. fetchRepositories (now_score e) (api_response e) = Inr repos \<and>
         FetchRepositories \<in> set (fst (loadRepositories e st)) \<and>
         snd (loadRepositories e st) =
           st\<lparr>cache_item := Some repos, cache_timestamp_item := Some (toString (now_write e))\<rparr>"
  proof (cases "fetchRepositories (now_score e) (api_response e)")
    case (Inl err)
    with h show ?thesis
      by (auto simp: loadRepositories_def load_try_def Let_def
          split: option.splits sum.splits if_splits)
  next
    case (Inr repos)
    with h show ?thesis
      by (auto simp: loadRepositories_def load_try_def Let_def setCachedRepositories_def
          split: option.splits sum.splits if_splits)
  qed
qed

text \<open>
  The same stale cache: a failing fetch leaves the storage alone, a fetch that returns
  no repository replaces the cached array and the timestamp.
\<close>

theorem C3_cache_written_only_on_success_witness:
  "fetchRepositories (now_score (example_env (Inl (Error ''offline''))))
       (api_response (example_env (Inl (Error ''offline'')))) = Inl (Error ''offline'') \<and>
   snd (loadRepositories (example_env (Inl (Error ''offline''))) example_cached_storage)
     = example_cached_storage \<and>
   snd (loadRepositories (example_env (Inr [])) example_cached_storage)
     = \<lparr>access_times_item = Some [''2'' \<mapsto> 100], cache_item = Some [],
        cache_timestamp_item = Some ''400002''\<rparr>"
  using C3_cache_written_only_on_success
      [of "example_env (Inl (Error ''offline''))" example_cached_storage]
    C3_cache_written_only_on_success [of "example_env (Inr [])" example_cached_storage]
  by (simp add: example_cached_storage_def example_env_def
      loadRepositories_def load_try_def Let_def getAccessTimes_def getCachedRepositories_def
      isCacheValid_def setCachedRepositories_def
      parseInt_def is_space_def is_digit_def digit_val_def CACHE_DURATION_def
      fetchRepositories_def handleGitHubError_def array_sort_def
      toString_def nat_digits.simps digit_char_def)

end
